theory Spec2Isabelle
  imports Complex_Main "HOL-Library.Product_Lexorder"
begin

section \<open>Errors\<close>

text \<open>
  The Python exceptions the two scripts raise. A time string that does not parse raises
  \<open>ValueError\<close> (from \<open>int\<close> or from the unpacking of three values); the specification calls
  it MalformedTimeError. An empty sample raises \<open>RuntimeError\<close> (the specification's
  EmptyInputError), a missing database file \<open>FileNotFoundError\<close>.
\<close>

datatype error = ValueError | RuntimeError | FileNotFoundError

section \<open>Time codec\<close>

subsection \<open>Parsing: \<open>str.split(":")\<close> and \<open>int\<close>\<close>

text \<open>
  Strings are ASCII text. Integers are Python's unbounded integers, modelled by \<open>int\<close>.
\<close>

fun split_colon :: "string \<Rightarrow> string list" where
  "split_colon [] = [[]]"
| "split_colon (c # cs) =
     (if c = CHR '':'' then [] # split_colon cs
      else (case split_colon cs of [] \<Rightarrow> [[c]] | p # ps \<Rightarrow> (c # p) # ps))"

definition digit_val :: "char \<Rightarrow> nat option" where
  "digit_val c = map_of (zip ''0123456789'' [0, 1, 2, 3, 4, 5, 6, 7, 8, 9]) c"

text \<open>The ASCII characters that \<open>int\<close> strips: tab, newline, VT, FF, CR, FS, GS, RS, US, space.\<close>

definition is_space :: "char \<Rightarrow> bool" where
  "is_space c = (c \<in> set [CHR 0x09, CHR 0x0A, CHR 0x0B, CHR 0x0C, CHR 0x0D,
                           CHR 0x1C, CHR 0x1D, CHR 0x1E, CHR 0x1F, CHR 0x20])"

definition strip :: "string \<Rightarrow> string" where
  "strip s = rev (dropWhile is_space (rev (dropWhile is_space s)))"

text \<open>
  The digits after the first one: a digit, or one underscore followed by a digit.
  The accumulator holds the value read so far.
\<close>

fun parse_digits :: "nat \<Rightarrow> string \<Rightarrow> nat option" where
  "parse_digits acc [] = Some acc"
| "parse_digits acc [c] =
     (case digit_val c of None \<Rightarrow> None | Some d \<Rightarrow> Some (10 * acc + d))"
| "parse_digits acc (c # c' # cs) =
     (if c = CHR ''_'' then
        (case digit_val c' of None \<Rightarrow> None
         | Some d \<Rightarrow> parse_digits (10 * acc + d) cs)
      else
        (case digit_val c of None \<Rightarrow> None
         | Some d \<Rightarrow> parse_digits (10 * acc + d) (c' # cs)))"

definition py_int :: "string \<Rightarrow> int option" where
  "py_int s =
     (case strip s of
        [] \<Rightarrow> None
      | c # cs \<Rightarrow>
          (let neg = (c = CHR ''-'');
               ds = (if c = CHR ''-'' \<or> c = CHR ''+'' then cs else c # cs)
           in case ds of
                [] \<Rightarrow> None
              | d # r \<Rightarrow>
                  (case digit_val d of
                     None \<Rightarrow> None
                   | Some v \<Rightarrow>
                       (case parse_digits v r of
                          None \<Rightarrow> None
                        | Some n \<Rightarrow> Some (if neg then - int n else int n)))))"

text \<open>
  \<open>time_to_seconds\<close>, defined with the same body in \<open>generate_synthetic_delays.py\<close> and
  inside \<open>compute_headway_stats\<close>: \<open>h, m, s = map(int, str(t).split(":"))\<close>. A field
  count other than three and a field that \<open>int\<close> rejects both raise \<open>ValueError\<close>.
\<close>

definition time_to_seconds :: "string \<Rightarrow> error + int" where
  "time_to_seconds t =
     (case split_colon t of
        [a, b, c] \<Rightarrow>
          (case (py_int a, py_int b, py_int c) of
             (Some h, Some m, Some s) \<Rightarrow> Inr (h * 3600 + m * 60 + s)
           | _ \<Rightarrow> Inl ValueError)
      | _ \<Rightarrow> Inl ValueError)"

subsection \<open>Formatting: the format specification \<open>02d\<close>\<close>

definition digit_char :: "nat \<Rightarrow> char" where
  "digit_char d = ''0123456789'' ! d"

fun nat_digits :: "nat \<Rightarrow> string" where
  "nat_digits n =
     (if n < 10 then [digit_char n] else nat_digits (n div 10) @ [digit_char (n mod 10)])"

declare nat_digits.simps [simp del]

text \<open>Zero padding to width two; the sign of a negative number counts in the width.\<close>

definition fmt_02d :: "int \<Rightarrow> string" where
  "fmt_02d n =
     (if n < 0 then CHR ''-'' # nat_digits (nat (- n))
      else (let ds = nat_digits (nat n) in replicate (2 - length ds) CHR ''0'' @ ds))"

text \<open>
  The last four lines of \<open>add_delay_to_time\<close>: hours, minutes and seconds of
  \<open>sec_actual\<close> (floor division), rendered as \<open>HH:MM:SS\<close>. The hours are not reduced.
\<close>

definition hms_string :: "int \<Rightarrow> string" where
  "hms_string sec_actual =
     (let h = sec_actual div 3600;
          m = (sec_actual mod 3600) div 60;
          s = sec_actual mod 60
      in fmt_02d h @ '':'' @ fmt_02d m @ '':'' @ fmt_02d s)"

definition add_delay_to_time :: "string \<Rightarrow> int \<Rightarrow> error + string" where
  "add_delay_to_time t_str delay_minutes =
     (case time_to_seconds t_str of
        Inl e \<Rightarrow> Inl e
      | Inr sec \<Rightarrow>
          (let sec_actual = sec + delay_minutes * 60;
               sec_actual = (if sec_actual < 0 then 0 else sec_actual)
           in Inr (hms_string sec_actual)))"

subsection \<open>Auxiliary notions for the codec proofs\<close>

definition is_digit :: "char \<Rightarrow> bool" where
  "is_digit c = (digit_val c \<noteq> None)"

definition digits_value :: "nat \<Rightarrow> string \<Rightarrow> nat" where
  "digits_value acc ds = foldl (\<lambda>a c. 10 * a + the (digit_val c)) acc ds"

section \<open>Schedule database\<close>

text \<open>
  The two tables of the SQLite database that the queries read, with the columns they use.
  Identifiers are of any linearly ordered type (text or numbers, as pandas reads them);
  they are not null.
\<close>

record ('s, 't) stop_time =
  st_stop_id :: 's
  st_trip_id :: 't
  st_arrival_time :: string

record ('r, 't) trip =
  t_trip_id :: 't
  t_route_id :: 'r

record ('r, 's, 't) database =
  stop_times :: "('s, 't) stop_time list"
  trips :: "('r, 't) trip list"

text \<open>A row of \<open>stop_times st JOIN trips t ON st.trip_id = t.trip_id\<close>.\<close>

record ('r, 's, 't) row =
  stop_id :: 's
  trip_id :: 't
  arrival_time :: string
  route_id :: 'r

text \<open>
  The join, as a nested loop over \<open>stop_times\<close> and \<open>trips\<close> in table order (the query
  has no \<open>ORDER BY\<close>; the order of its rows is the engine's).
\<close>

definition joined_rows :: "('r, 's, 't) database \<Rightarrow> ('r, 's, 't) row list" where
  "joined_rows db =
     concat (map (\<lambda>st.
        map (\<lambda>t. \<lparr>stop_id = st_stop_id st, trip_id = st_trip_id st,
                   arrival_time = st_arrival_time st, route_id = t_route_id t\<rparr>)
            (filter (\<lambda>t. st_trip_id st = t_trip_id t) (trips db)))
        (stop_times db))"

text \<open>\<open>LIMIT n\<close>: the first \<open>n\<close> rows; SQLite takes a negative \<open>n\<close> as no limit.\<close>

definition sql_limit :: "int \<Rightarrow> 'a list \<Rightarrow> 'a list" where
  "sql_limit n xs = (if n < 0 then xs else take (nat n) xs)"

section \<open>Headway engine\<close>

text \<open>
  \<open>df["arrival_time"].apply(time_to_seconds)\<close>: the first string that does not parse
  raises, and the exception leaves \<open>compute_headway_stats\<close>. A row of the frame with its
  \<open>arrival_sec\<close> column is a pair.
\<close>

fun apply_time_to_seconds ::
  "('r, 's, 't) row list \<Rightarrow> error + (('r, 's, 't) row \<times> int) list" where
  "apply_time_to_seconds [] = Inr []"
| "apply_time_to_seconds (x # xs) =
     (case time_to_seconds (arrival_time x) of
        Inl e \<Rightarrow> Inl e
      | Inr sec \<Rightarrow>
          (case apply_time_to_seconds xs of
             Inl e \<Rightarrow> Inl e
           | Inr ys \<Rightarrow> Inr ((x, sec) # ys)))"

definition group_key :: "('r, 's, 't) row \<times> int \<Rightarrow> 'r \<times> 's" where
  "group_key x = (route_id (fst x), stop_id (fst x))"

definition sort_columns :: "('r, 's, 't) row \<times> int \<Rightarrow> 'r \<times> 's \<times> int" where
  "sort_columns x = (route_id (fst x), stop_id (fst x), snd x)"

text \<open>
  \<open>df.groupby(["route_id", "stop_id"])["arrival_sec"].diff()\<close>: each row minus the row
  before it in its own group, in frame order; the first row of a group gets NaN
  (\<open>None\<close>). The map holds the last \<open>arrival_sec\<close> seen in each group.
\<close>

fun groupby_diff ::
  "('r \<times> 's \<Rightarrow> int option) \<Rightarrow> (('r, 's, 't) row \<times> int) list \<Rightarrow> int option list" where
  "groupby_diff prev [] = []"
| "groupby_diff prev (x # xs) =
     map_option (\<lambda>p. snd x - p) (prev (group_key x))
       # groupby_diff (prev(group_key x \<mapsto> snd x)) xs"

text \<open>\<open>dropna(subset=["headway_min"])\<close>.\<close>

fun dropna :: "('a \<times> 'b option) list \<Rightarrow> ('a \<times> 'b) list" where
  "dropna [] = []"
| "dropna ((x, None) # xs) = dropna xs"
| "dropna ((x, Some h) # xs) = (x, h) # dropna xs"

text \<open>
  The frame after sorting, differencing and \<open>dropna\<close>: the headway observations, each a
  row with its \<open>arrival_sec\<close> and its \<open>headway_min\<close>. Floating-point numbers are modelled
  by the real numbers they stand for. The sort on several columns is stable.
\<close>

definition headway_frame ::
  "(('r::linorder, 's::linorder, 't) row \<times> int) list
     \<Rightarrow> ((('r, 's, 't) row \<times> int) \<times> real) list" where
  "headway_frame df =
     (let df = sort_key sort_columns df;
          headway_min = map (map_option (\<lambda>d. real_of_int d / 60)) (groupby_diff Map.empty df)
      in dropna (zip df headway_min))"

record 'r route_headway_stats =
  hs_route_id :: 'r
  n_headways :: nat
  avg_headway_min :: real
  median_headway_min :: real
  min_headway_min :: real
  max_headway_min :: real

text \<open>
  The aggregations of a group. A group is never empty, since its key comes from one of
  its rows; on the empty list pandas gives NaN, written 0 here.
\<close>

definition mean :: "real list \<Rightarrow> real" where
  "mean xs = (if xs = [] then 0 else sum_list xs / real (length xs))"

definition median :: "real list \<Rightarrow> real" where
  "median xs =
     (let ys = sort xs; n = length ys
      in if n = 0 then 0
         else if odd n then ys ! (n div 2)
         else (ys ! (n div 2 - 1) + ys ! (n div 2)) / 2)"

definition agg_min :: "real list \<Rightarrow> real" where
  "agg_min xs = (case xs of [] \<Rightarrow> 0 | x # r \<Rightarrow> fold min r x)"

definition agg_max :: "real list \<Rightarrow> real" where
  "agg_max xs = (case xs of [] \<Rightarrow> 0 | x # r \<Rightarrow> fold max r x)"

text \<open>
  \<open>df.groupby("route_id")["headway_min"].agg(["count", "mean", "median", "min", "max"])\<close>
  with \<open>reset_index\<close> and \<open>rename\<close>: one row for each route that has a row in the frame,
  in ascending order of \<open>route_id\<close>.
\<close>

definition agg_headways ::
  "((('r::linorder, 's, 't) row \<times> int) \<times> real) list \<Rightarrow> 'r route_headway_stats list" where
  "agg_headways obs =
     map (\<lambda>r.
        (let hs = map snd (filter (\<lambda>ob. route_id (fst (fst ob)) = r) obs)
         in \<lparr>hs_route_id = r, n_headways = length hs, avg_headway_min = mean hs,
             median_headway_min = median hs, min_headway_min = agg_min hs,
             max_headway_min = agg_max hs\<rparr>))
       (sort (remdups (map (\<lambda>ob. route_id (fst (fst ob))) obs)))"

definition compute_headway_stats ::
  "('r::linorder, 's::linorder, 't) database \<Rightarrow> int \<Rightarrow> error + 'r route_headway_stats list" where
  "compute_headway_stats db max_rows =
     (let df = sql_limit max_rows (joined_rows db)
      in case apply_time_to_seconds df of
           Inl e \<Rightarrow> Inl e
         | Inr df \<Rightarrow> Inr (agg_headways (headway_frame df)))"

text \<open>The default of the parameter \<open>max_rows\<close>, and the call in \<open>main\<close>.\<close>

definition compute_headway_stats_default ::
  "('r::linorder, 's::linorder, 't) database \<Rightarrow> error + 'r route_headway_stats list" where
  "compute_headway_stats_default db = compute_headway_stats db 100000"

definition main_headway_stats ::
  "('r::linorder, 's::linorder, 't) database \<Rightarrow> error + 'r route_headway_stats list" where
  "main_headway_stats db = compute_headway_stats db 200000"

subsection \<open>Auxiliary notions for the headway proofs\<close>

text \<open>The gaps between neighbours of a list, and the differences from a given start.\<close>

definition adjacent_gaps :: "int list \<Rightarrow> int list" where
  "adjacent_gaps xs = map (\<lambda>(a, b). b - a) (zip xs (tl xs))"

fun diffs_from :: "int option \<Rightarrow> int list \<Rightarrow> int option list" where
  "diffs_from p [] = []"
| "diffs_from p (x # xs) = map_option (\<lambda>q. x - q) p # diffs_from (Some x) xs"


definition group_events ::
  "'r \<Rightarrow> 's \<Rightarrow> (('r, 's, 't) row \<times> int) list \<Rightarrow> (('r, 's, 't) row \<times> int) list" where
  "group_events r s df = filter (\<lambda>x. group_key x = (r, s)) df"

definition group_observations ::
  "'r \<Rightarrow> 's \<Rightarrow> ((('r, 's, 't) row \<times> int) \<times> real) list
     \<Rightarrow> ((('r, 's, 't) row \<times> int) \<times> real) list" where
  "group_observations r s obs = filter (\<lambda>ob. group_key (fst ob) = (r, s)) obs"

fun somes :: "'a option list \<Rightarrow> 'a list" where
  "somes [] = []"
| "somes (None # xs) = somes xs"
| "somes (Some x # xs) = x # somes xs"

section \<open>Delay synthesizer\<close>

datatype category = on_time | small_delay | big_delay | early

text \<open>
  The numpy generator. Its state is of any type \<open>'g\<close>; each method used by
  \<open>generate_delays\<close> is a function that returns one drawn value and the next state:
  \<open>rng_choice_p\<close> is one element of \<open>rng.choice([...], p=[0.6, 0.25, 0.1, 0.05])\<close>,
  \<open>rng_normal\<close> one element of \<open>rng.normal(loc=0.0, scale=1.0)\<close>, \<open>rng_integers low high\<close>
  one element of \<open>rng.integers(low, high)\<close>, and \<open>rng_choice k\<close> the index that
  \<open>rng.choice\<close> picks in a list of \<open>k\<close> elements. A draw of \<open>size=k\<close> is \<open>k\<close> draws in a row.
\<close>

record 'g generator =
  default_rng :: "int \<Rightarrow> 'g"
  rng_choice_p :: "'g \<Rightarrow> category \<times> 'g"
  rng_normal :: "'g \<Rightarrow> real \<times> 'g"
  rng_integers :: "int \<Rightarrow> int \<Rightarrow> 'g \<Rightarrow> int \<times> 'g"
  rng_choice :: "nat \<Rightarrow> 'g \<Rightarrow> nat \<times> 'g"

fun draws :: "('g \<Rightarrow> 'a \<times> 'g) \<Rightarrow> nat \<Rightarrow> 'g \<Rightarrow> 'a list \<times> 'g" where
  "draws f 0 g = ([], g)"
| "draws f (Suc k) g =
     (let (x, g1) = f g; (xs, g2) = draws f k g1 in (x # xs, g2))"

text \<open>What numpy documents of the two bounded draws.\<close>

definition numpy_contract :: "'g generator \<Rightarrow> bool" where
  "numpy_contract G =
     ((\<forall>low high g. low < high \<longrightarrow>
          low \<le> fst (rng_integers G low high g) \<and> fst (rng_integers G low high g) < high)
      \<and> (\<forall>k g. 0 < k \<longrightarrow> fst (rng_choice G k g) < k))"

text \<open>
  Boolean masks: \<open>mask.sum()\<close>, \<open>a[mask]\<close> and \<open>a[mask] = values\<close>. In \<open>generate_delays\<close>
  the values are as many as the mask has set flags and the mask is as long as the array;
  numpy raises otherwise, and the model then keeps the entries it has no value for.
\<close>

definition mask_sum :: "bool list \<Rightarrow> nat" where
  "mask_sum flags = length (filter id flags)"

definition mask_select :: "bool list \<Rightarrow> 'a list \<Rightarrow> 'a list" where
  "mask_select flags a = map snd (filter fst (zip flags a))"

fun mask_assign :: "bool list \<Rightarrow> 'a list \<Rightarrow> 'a list \<Rightarrow> 'a list" where
  "mask_assign (b # bs) vs (d # ds) =
     (if b then (case vs of [] \<Rightarrow> d # mask_assign bs [] ds
                 | v # vs' \<Rightarrow> v # mask_assign bs vs' ds)
      else d # mask_assign bs vs ds)"
| "mask_assign [] vs ds = ds"
| "mask_assign bs vs [] = []"

definition clip :: "real \<Rightarrow> real \<Rightarrow> real \<Rightarrow> real" where
  "clip x lo hi = min (max x lo) hi"

text \<open>\<open>round(0)\<close>: to the nearest integer, a half to the even neighbour.\<close>

definition round_half_even :: "real \<Rightarrow> int" where
  "round_half_even x =
     (let f = \<lfloor>x\<rfloor>; d = x - of_int f
      in if d < 1 / 2 then f
         else if 1 / 2 < d then f + 1
         else if even f then f else f + 1)"

definition reason_choices :: "category \<Rightarrow> string list" where
  "reason_choices cat =
     (case cat of
        on_time \<Rightarrow> [''on_time'']
      | small_delay \<Rightarrow> [''vehicle_late'', ''connection_wait'']
      | big_delay \<Rightarrow> [''signal_failure'', ''infrastructure_issue'', ''congestion'']
      | early \<Rightarrow> [''early_departure''])"

text \<open>The loop \<open>for cat in categories: reasons.append(rng.choice(reason_choices[cat]))\<close>.\<close>

fun draw_reasons :: "'g generator \<Rightarrow> category list \<Rightarrow> 'g \<Rightarrow> string list \<times> 'g" where
  "draw_reasons G [] g = ([], g)"
| "draw_reasons G (cat # cats) g =
     (let (i, g1) = rng_choice G (length (reason_choices cat)) g;
          (rs, g2) = draw_reasons G cats g1
      in (reason_choices cat ! i # rs, g2))"

text \<open>
  The random columns of \<open>generate_delays\<close> for a frame of \<open>n\<close> rows: \<open>categories\<close>,
  \<open>df["delay_min"]\<close> and \<open>df["reason"]\<close>, with the draws in the order of the source.
\<close>

definition synthesize_columns ::
  "'g generator \<Rightarrow> int \<Rightarrow> nat \<Rightarrow> category list \<times> int list \<times> string list" where
  "synthesize_columns G seed n =
     (let rng = default_rng G seed;
          (categories, rng) = draws (rng_choice_p G) n rng;
          delays = replicate n (0::real);
          mask_on_time = map (\<lambda>c. c = on_time) categories;
          (xs, rng) = draws (rng_normal G) (mask_sum mask_on_time) rng;
          delays = mask_assign mask_on_time xs delays;
          delays = mask_assign mask_on_time
                     (map (\<lambda>x. clip x (- 2) 3) (mask_select mask_on_time delays)) delays;
          mask_small = map (\<lambda>c. c = small_delay) categories;
          (ks, rng) = draws (rng_integers G 1 6) (mask_sum mask_small) rng;
          delays = mask_assign mask_small (map real_of_int ks) delays;
          mask_big = map (\<lambda>c. c = big_delay) categories;
          (ks, rng) = draws (rng_integers G 5 21) (mask_sum mask_big) rng;
          delays = mask_assign mask_big (map real_of_int ks) delays;
          mask_early = map (\<lambda>c. c = early) categories;
          (ks, rng) = draws (rng_integers G 1 6) (mask_sum mask_early) rng;
          delays = mask_assign mask_early (map (\<lambda>k. - real_of_int k) ks) delays;
          delay_min = map round_half_even delays;
          (reasons, rng) = draw_reasons G categories rng
      in (categories, delay_min, reasons))"

text \<open>The output rows. The service date is the constant 2025-11-01.\<close>

record ('r, 's, 't) delay_event =
  service_date :: "nat \<times> nat \<times> nat"
  ev_trip_id :: 't
  ev_stop_id :: 's
  ev_route_id :: 'r
  planned_arrival :: string
  actual_arrival :: string
  delay_min :: int
  reason :: string

text \<open>
  \<open>[add_delay_to_time(t, d) for t, d in zip(df["planned_arrival"], df["delay_min"])]\<close>:
  the first planned arrival that does not parse raises.
\<close>

fun actual_arrivals :: "(string \<times> int) list \<Rightarrow> error + string list" where
  "actual_arrivals [] = Inr []"
| "actual_arrivals ((t, d) # tds) =
     (case add_delay_to_time t d of
        Inl e \<Rightarrow> Inl e
      | Inr a \<Rightarrow>
          (case actual_arrivals tds of
             Inl e \<Rightarrow> Inl e
           | Inr as \<Rightarrow> Inr (a # as)))"

definition make_event ::
  "('r, 's, 't) row \<times> int \<times> string \<times> string \<Rightarrow> ('r, 's, 't) delay_event" where
  "make_event x =
     (case x of (r, d, why, actual) \<Rightarrow>
        \<lparr>service_date = (2025, 11, 1), ev_trip_id = trip_id r, ev_stop_id = stop_id r,
         ev_route_id = route_id r, planned_arrival = arrival_time r,
         actual_arrival = actual, delay_min = d, reason = why\<rparr>)"

text \<open>The frame before the final sort, in the order of the sample.\<close>

definition synthesize_frame ::
  "'g generator \<Rightarrow> int \<Rightarrow> ('r, 's, 't) row list \<Rightarrow> error + ('r, 's, 't) delay_event list" where
  "synthesize_frame G seed df =
     (case synthesize_columns G seed (length df) of
        (categories, delay_col, reason_col) \<Rightarrow>
          (case actual_arrivals (zip (map arrival_time df) delay_col) of
             Inl e \<Rightarrow> Inl e
           | Inr actual \<Rightarrow>
               Inr (map make_event (zip df (zip delay_col (zip reason_col actual))))))"

definition output_order ::
  "('r, 's, 't) delay_event \<Rightarrow> (nat \<times> nat \<times> nat) \<times> 'r \<times> 't \<times> 's" where
  "output_order e = (service_date e, ev_route_id e, ev_trip_id e, ev_stop_id e)"

text \<open>
  The part of \<open>generate_delays\<close> after the sample is read: the synthesis and
  \<open>sort_values(["service_date", "route_id", "trip_id", "stop_id"])\<close>.
\<close>

definition synthesize ::
  "'g generator \<Rightarrow> int \<Rightarrow> ('r::linorder, 's::linorder, 't::linorder) row list
     \<Rightarrow> error + ('r, 's, 't) delay_event list" where
  "synthesize G seed df =
     (case synthesize_frame G seed df of
        Inl e \<Rightarrow> Inl e
      | Inr frame \<Rightarrow> Inr (sort_key output_order frame))"

text \<open>
  \<open>ORDER BY RANDOM()\<close>: SQLite draws a number for each row of the join and sorts by
  it; \<open>sqlite_random i\<close> is the number of row \<open>i\<close>. It belongs to the run, not to the seed.
\<close>

definition order_by_random :: "(nat \<Rightarrow> int) \<Rightarrow> 'a list \<Rightarrow> 'a list" where
  "order_by_random sqlite_random xs =
     map snd (sort_key fst (zip (map sqlite_random [0..<length xs]) xs))"

definition sample_rows ::
  "(nat \<Rightarrow> int) \<Rightarrow> ('r, 's, 't) database \<Rightarrow> int \<Rightarrow> ('r, 's, 't) row list" where
  "sample_rows sqlite_random db n_samples =
     (let total_rows = int (length (stop_times db));
          n_samples = min n_samples total_rows
      in sql_limit n_samples (order_by_random sqlite_random (joined_rows db)))"

text \<open>\<open>generate_delays\<close>; the database file is \<open>None\<close> when it does not exist.\<close>

definition generate_delays ::
  "'g generator \<Rightarrow> (nat \<Rightarrow> int) \<Rightarrow> ('r::linorder, 's::linorder, 't::linorder) database option
     \<Rightarrow> int \<Rightarrow> int \<Rightarrow> error + ('r, 's, 't) delay_event list" where
  "generate_delays G sqlite_random db_file n_samples seed =
     (case db_file of
        None \<Rightarrow> Inl FileNotFoundError
      | Some db \<Rightarrow>
          (let df = sample_rows sqlite_random db n_samples
           in if df = [] then Inl RuntimeError else synthesize G seed df))"

subsection \<open>A reference synthesizer with the draws of one event together\<close>

text \<open>
  Modelled from the specification's draw order, for comparison with the source: category
  draw, then magnitude draw, then reason draw, per event, in input order.
\<close>

definition draw_magnitude :: "'g generator \<Rightarrow> category \<Rightarrow> 'g \<Rightarrow> int \<times> 'g" where
  "draw_magnitude G cat g =
     (case cat of
        on_time \<Rightarrow> (let (x, g1) = rng_normal G g in (round_half_even (clip x (- 2) 3), g1))
      | small_delay \<Rightarrow> rng_integers G 1 6 g
      | big_delay \<Rightarrow> rng_integers G 5 21 g
      | early \<Rightarrow> (let (k, g1) = rng_integers G 1 6 g in (- k, g1)))"

fun interleaved_events :: "'g generator \<Rightarrow> nat \<Rightarrow> 'g \<Rightarrow> (category \<times> int \<times> string) list" where
  "interleaved_events G 0 g = []"
| "interleaved_events G (Suc n) g =
     (let (cat, g1) = rng_choice_p G g;
          (d, g2) = draw_magnitude G cat g1;
          (i, g3) = rng_choice G (length (reason_choices cat)) g2
      in (cat, d, reason_choices cat ! i) # interleaved_events G n g3)"

definition interleaved_columns ::
  "'g generator \<Rightarrow> int \<Rightarrow> nat \<Rightarrow> category list \<times> int list \<times> string list" where
  "interleaved_columns G seed n =
     (let evs = interleaved_events G n (default_rng G seed)
      in (map fst evs, map (fst \<circ> snd) evs, map (snd \<circ> snd) evs))"

subsection \<open>A reference synthesizer with the draws in phases\<close>

text \<open>
  One pass over the events that draws a value at each event whose flag is set and
  stores it there.
\<close>

fun draw_where :: "('g \<Rightarrow> 'a \<times> 'g) \<Rightarrow> bool list \<Rightarrow> 'a list \<Rightarrow> 'g \<Rightarrow> 'a list \<times> 'g" where
  "draw_where f (b # bs) (d # ds) g =
     (if b then (let (x, g1) = f g; (ds', g2) = draw_where f bs ds g1 in (x # ds', g2))
      else (let (ds', g2) = draw_where f bs ds g in (d # ds', g2)))"
| "draw_where f [] ds g = (ds, g)"
| "draw_where f bs [] g = ([], g)"

definition draw_mapped :: "('a \<Rightarrow> 'b) \<Rightarrow> ('g \<Rightarrow> 'a \<times> 'g) \<Rightarrow> 'g \<Rightarrow> 'b \<times> 'g" where
  "draw_mapped h f g = (let (x, g1) = f g in (h x, g1))"

text \<open>
  The phases: the categories of all events; then the magnitudes of the \<open>on_time\<close>
  events, of the \<open>small_delay\<close>, of the \<open>big_delay\<close> and of the \<open>early\<close> events; then the
  reasons of all events. Each phase runs over the events in input order.
\<close>

definition phased_columns ::
  "'g generator \<Rightarrow> int \<Rightarrow> nat \<Rightarrow> category list \<times> int list \<times> string list" where
  "phased_columns G seed n =
     (let g = default_rng G seed;
          (categories, g) = draws (rng_choice_p G) n g;
          delays = replicate n (0::real);
          (delays, g) = draw_where (draw_mapped (\<lambda>x. clip x (- 2) 3) (rng_normal G))
                          (map (\<lambda>c. c = on_time) categories) delays g;
          (delays, g) = draw_where (draw_mapped real_of_int (rng_integers G 1 6))
                          (map (\<lambda>c. c = small_delay) categories) delays g;
          (delays, g) = draw_where (draw_mapped real_of_int (rng_integers G 5 21))
                          (map (\<lambda>c. c = big_delay) categories) delays g;
          (delays, g) = draw_where (draw_mapped (\<lambda>k. - real_of_int k) (rng_integers G 1 6))
                          (map (\<lambda>c. c = early) categories) delays g;
          (reasons, g) = draw_reasons G categories g
      in (categories, map round_half_even delays, reasons))"

subsection \<open>Auxiliary notions for the synthesizer proofs\<close>

text \<open>The array \<open>delays\<close> after the four masked assignments, given what was drawn.\<close>

definition fill_delays ::
  "category list \<Rightarrow> real list \<Rightarrow> int list \<Rightarrow> int list \<Rightarrow> int list \<Rightarrow> real list" where
  "fill_delays cs xs ks1 ks2 ks3 =
     (let d0 = replicate (length cs) (0::real);
          m = map (\<lambda>c. c = on_time) cs;
          d1 = mask_assign m xs d0;
          d2 = mask_assign m (map (\<lambda>x. clip x (- 2) 3) (mask_select m d1)) d1;
          d3 = mask_assign (map (\<lambda>c. c = small_delay) cs) (map real_of_int ks1) d2;
          d4 = mask_assign (map (\<lambda>c. c = big_delay) cs) (map real_of_int ks2) d3
      in mask_assign (map (\<lambda>c. c = early) cs) (map (\<lambda>k. - real_of_int k) ks3) d4)"

definition in_band :: "category \<Rightarrow> int \<Rightarrow> bool" where
  "in_band cat d =
     (case cat of
        on_time \<Rightarrow> - 2 \<le> d \<and> d \<le> 3
      | small_delay \<Rightarrow> 1 \<le> d \<and> d \<le> 5
      | big_delay \<Rightarrow> 5 \<le> d \<and> d \<le> 20
      | early \<Rightarrow> - 5 \<le> d \<and> d \<le> - 1)"

section \<open>Example data\<close>

text \<open>
  A small generator for examples: its state is a list of numbers, each draw takes the
  head of the list (0 when the list is empty) and reduces it to the range asked for.
\<close>

definition pop :: "nat list \<Rightarrow> nat \<times> nat list" where
  "pop g = (case g of [] \<Rightarrow> (0, []) | x # r \<Rightarrow> (x, r))"

definition list_generator :: "nat list generator" where
  "list_generator =
     \<lparr>default_rng = (\<lambda>seed. [nat \<bar>seed\<bar>, 3, 1, 4, 0, 2, 1, 0, 5, 1, 2, 0]),
      rng_choice_p = (\<lambda>g. let (x, r) = pop g
                           in ([on_time, small_delay, big_delay, early] ! (x mod 4), r)),
      rng_normal = (\<lambda>g. let (x, r) = pop g in (real x * 3 / 2 - 3, r)),
      rng_integers = (\<lambda>low high g. let (x, r) = pop g
                                     in (low + int x mod (high - low), r)),
      rng_choice = (\<lambda>k g. let (x, r) = pop g in (x mod k, r))\<rparr>"

definition ex_sample :: "(nat, nat, nat) row list" where
  "ex_sample =
     [\<lparr>stop_id = 1, trip_id = 10, arrival_time = ''25:10:00'', route_id = 7\<rparr>,
      \<lparr>stop_id = 2, trip_id = 13, arrival_time = ''00:02:00'', route_id = 8\<rparr>]"

definition ex_frame :: "(nat, nat, nat) delay_event list" where
  "ex_frame =
     [\<lparr>service_date = (2025, 11, 1), ev_trip_id = 10, ev_stop_id = 1, ev_route_id = 7,
       planned_arrival = ''25:10:00'', actual_arrival = ''25:08:00'', delay_min = - 2,
       reason = ''early_departure''\<rparr>,
      \<lparr>service_date = (2025, 11, 1), ev_trip_id = 13, ev_stop_id = 2, ev_route_id = 8,
       planned_arrival = ''00:02:00'', actual_arrival = ''00:00:00'', delay_min = - 5,
       reason = ''early_departure''\<rparr>]"

definition empty_db :: "(nat, nat, nat) database" where
  "empty_db = \<lparr>stop_times = [], trips = []\<rparr>"

definition ex_df :: "((nat, nat, nat) row \<times> int) list" where
  "ex_df =
     [(\<lparr>stop_id = 1, trip_id = 10, arrival_time = ''00:25:00'', route_id = 7\<rparr>, 1500),
      (\<lparr>stop_id = 1, trip_id = 11, arrival_time = ''00:00:00'', route_id = 7\<rparr>, 0),
      (\<lparr>stop_id = 1, trip_id = 12, arrival_time = ''00:10:00'', route_id = 7\<rparr>, 600),
      (\<lparr>stop_id = 2, trip_id = 13, arrival_time = ''00:10:00'', route_id = 8\<rparr>, 600)]"

definition ex_db :: "(nat, nat, nat) database" where
  "ex_db =
     \<lparr>stop_times =
        [\<lparr>st_stop_id = 1, st_trip_id = 10, st_arrival_time = ''00:25:00''\<rparr>,
         \<lparr>st_stop_id = 1, st_trip_id = 11, st_arrival_time = ''00:00:00''\<rparr>,
         \<lparr>st_stop_id = 1, st_trip_id = 12, st_arrival_time = ''00:10:00''\<rparr>,
         \<lparr>st_stop_id = 2, st_trip_id = 13, st_arrival_time = ''00:10:00''\<rparr>],
      trips =
        [\<lparr>t_trip_id = 10, t_route_id = 7\<rparr>, \<lparr>t_trip_id = 11, t_route_id = 7\<rparr>,
         \<lparr>t_trip_id = 12, t_route_id = 7\<rparr>, \<lparr>t_trip_id = 13, t_route_id = 8\<rparr>]\<rparr>"

text \<open>The same schedule with one more arrival on route 7 after the first two rows.\<close>

definition ex_db_longer :: "(nat, nat, nat) database" where
  "ex_db_longer =
     ex_db\<lparr>stop_times :=
        take 2 (stop_times ex_db)
          @ [\<lparr>st_stop_id = 1, st_trip_id = 12, st_arrival_time = ''00:40:00''\<rparr>]\<rparr>"


section \<open>Properties of the time codec\<close>

lemma is_digit_not_special:
  "is_digit c \<Longrightarrow> c \<noteq> CHR '':'' \<and> c \<noteq> CHR ''_'' \<and> c \<noteq> CHR ''-'' \<and> c \<noteq> CHR ''+'' \<and> \<not> is_space c"
  by (auto simp: is_digit_def digit_val_def is_space_def split: if_splits)

lemma parse_digits_all_digits:
  "list_all is_digit ds \<Longrightarrow> parse_digits acc ds = Some (digits_value acc ds)"
proof (induction acc ds rule: parse_digits.induct)
  case (1 acc)
  then show ?case by (simp add: digits_value_def)
next
  case (2 acc c)
  then show ?case by (auto simp: digits_value_def is_digit_def)
next
  case (3 acc c c' cs)
  from "3.prems" have c: "is_digit c" and rest: "list_all is_digit (c' # cs)" by simp_all
  from c have nu: "c \<noteq> CHR ''_''" using is_digit_not_special by blast
  from c obtain d where d: "digit_val c = Some d" by (auto simp: is_digit_def)
  have "parse_digits acc (c # c' # cs) = parse_digits (10 * acc + d) (c' # cs)"
    using nu d by simp
  also have "\<dots> = Some (digits_value (10 * acc + d) (c' # cs))"
    using "3.IH"(2) [OF nu d rest] .
  finally show ?case using d by (simp add: digits_value_def)
qed

lemma digit_char_val_upto: "\<forall>d \<in> set [0..<10]. digit_val (digit_char d) = Some d"
  by code_simp

lemma digit_char_val: "d < 10 \<Longrightarrow> digit_val (digit_char d) = Some d"
  using digit_char_val_upto by simp

lemma digit_char_is_digit: "d < 10 \<Longrightarrow> is_digit (digit_char d)"
  by (simp add: is_digit_def digit_char_val)

lemma digits_value_snoc:
  "digits_value acc (ds @ [c]) = 10 * digits_value acc ds + the (digit_val c)"
  by (simp add: digits_value_def)

lemma nat_digits_props:
  "list_all is_digit (nat_digits n) \<and> nat_digits n \<noteq> [] \<and> digits_value 0 (nat_digits n) = n"
proof (induction n rule: nat_digits.induct)
  case (1 n)
  show ?case
  proof (cases "n < 10")
    case True
    then show ?thesis
      by (subst (1 2 3) nat_digits.simps) (simp add: digit_char_is_digit digits_value_def digit_char_val)
  next
    case False
    have m: "n mod 10 < 10" by simp
    from False "1.IH" have ih: "list_all is_digit (nat_digits (n div 10))"
      "digits_value 0 (nat_digits (n div 10)) = n div 10" by simp_all
    have eq: "nat_digits n = nat_digits (n div 10) @ [digit_char (n mod 10)]"
      using False by (subst nat_digits.simps) simp
    show ?thesis
      unfolding eq using ih m
      by (simp add: digits_value_snoc digit_char_val digit_char_is_digit)
  qed
qed

lemma digits_value_zeros:
  "digits_value 0 (replicate k CHR ''0'' @ ds) = digits_value 0 ds"
  by (induction k) (simp_all add: digits_value_def digit_val_def)

lemma fmt_02d_props:
  assumes "0 \<le> n"
  shows "list_all is_digit (fmt_02d n)" and "fmt_02d n \<noteq> []"
    and "digits_value 0 (fmt_02d n) = nat n"
proof -
  have z: "is_digit CHR ''0''" by (simp add: is_digit_def digit_val_def)
  have eq: "fmt_02d n = replicate (2 - length (nat_digits (nat n))) CHR ''0'' @ nat_digits (nat n)"
    using assms by (simp add: fmt_02d_def Let_def)
  show "list_all is_digit (fmt_02d n)"
    unfolding eq using nat_digits_props [of "nat n"] z by (auto simp: list_all_iff)
  show "fmt_02d n \<noteq> []"
    unfolding eq using nat_digits_props [of "nat n"] by simp
  show "digits_value 0 (fmt_02d n) = nat n"
    unfolding eq using nat_digits_props [of "nat n"] by (simp add: digits_value_zeros)
qed

lemma strip_digits:
  assumes "list_all is_digit ds"
  shows "strip ds = ds"
proof (cases ds)
  case Nil
  then show ?thesis by (simp add: strip_def)
next
  case (Cons c cs)
  with assms have "\<not> is_space (hd ds)" using is_digit_not_special by auto
  then have a: "dropWhile is_space ds = ds" using Cons by simp
  from Cons have ne: "rev ds \<noteq> []" by simp
  from assms Cons have "is_digit (last ds)" by (simp add: list_all_iff)
  then have "\<not> is_space (hd (rev ds))" using is_digit_not_special ne by (simp add: hd_rev)
  then have b: "dropWhile is_space (rev ds) = rev ds" using ne by (cases "rev ds") simp_all
  show ?thesis by (simp add: strip_def a b)
qed

lemma py_int_digits:
  assumes "list_all is_digit ds" and "ds \<noteq> []"
  shows "py_int ds = Some (int (digits_value 0 ds))"
proof -
  from assms obtain c cs where ds: "ds = c # cs" by (cases ds) auto
  with assms have c: "is_digit c" and cs: "list_all is_digit cs" by simp_all
  from c have ns: "c \<noteq> CHR ''-''" "c \<noteq> CHR ''+''" using is_digit_not_special by blast+
  from c obtain v where v: "digit_val c = Some v" by (auto simp: is_digit_def)
  have p: "parse_digits v cs = Some (digits_value v cs)"
    using parse_digits_all_digits [OF cs] .
  have dv: "digits_value 0 ds = digits_value v cs"
    by (simp add: ds digits_value_def v)
  have st: "strip (c # cs) = c # cs"
    using strip_digits [OF assms(1)] by (simp add: ds)
  show ?thesis
    unfolding ds py_int_def st using ns v p dv [unfolded ds] by (simp add: Let_def)
qed

lemma py_int_fmt_02d: "0 \<le> n \<Longrightarrow> py_int (fmt_02d n) = Some n"
  using py_int_digits [OF fmt_02d_props(1,2)] fmt_02d_props(3) by simp

lemma split_colon_no_colon: "CHR '':'' \<notin> set a \<Longrightarrow> split_colon a = [a]"
  by (induction a) auto

lemma split_colon_field:
  "CHR '':'' \<notin> set a \<Longrightarrow> split_colon (a @ CHR '':'' # rest) = a # split_colon rest"
  by (induction a) auto

lemma fmt_02d_no_colon: "0 \<le> n \<Longrightarrow> CHR '':'' \<notin> set (fmt_02d n)"
  using fmt_02d_props(1) [of n] is_digit_not_special by (auto simp: list_all_iff)

lemma hms_arith:
  "(s::int) div 3600 * 3600 + s mod 3600 div 60 * 60 + s mod 60 = s"
proof -
  have "s mod 3600 div 60 * 60 + s mod 3600 mod 60 = s mod 3600" by simp
  moreover have "s mod 3600 mod 60 = s mod 60"
    by (simp add: mod_mod_cancel)
  ultimately show ?thesis
    by (metis add.assoc div_mult_mod_eq)
qed

text \<open>
  C1. Round trip of the time codec: for every non-negative number of seconds \<open>s\<close>, the
  string that the formatting step of \<open>add_delay_to_time\<close> produces for \<open>s\<close> is read back
  by \<open>time_to_seconds\<close> as \<open>s\<close>. The hours are not reduced modulo 24, so 24 hours and
  more survive.
\<close>

theorem time_codec_round_trip:
  "0 \<le> s \<Longrightarrow> time_to_seconds (hms_string s) = Inr s"
proof -
  assume s: "0 \<le> s"
  define h where "h = s div 3600"
  define m where "m = s mod 3600 div 60"
  define c where "c = s mod 60"
  have nn: "0 \<le> h" "0 \<le> m" "0 \<le> c" using s by (simp_all add: h_def m_def c_def pos_imp_zdiv_nonneg_iff)
  have str: "hms_string s = fmt_02d h @ CHR '':'' # (fmt_02d m @ CHR '':'' # fmt_02d c)"
    by (simp add: hms_string_def Let_def h_def m_def c_def)
  have sp: "split_colon (hms_string s) = [fmt_02d h, fmt_02d m, fmt_02d c]"
    unfolding str
    by (simp add: split_colon_field split_colon_no_colon fmt_02d_no_colon nn)
  have "time_to_seconds (hms_string s) = Inr (h * 3600 + m * 60 + c)"
    by (simp add: time_to_seconds_def sp py_int_fmt_02d nn)
  then show ?thesis using hms_arith [of s] by (simp add: h_def m_def c_def)
qed

theorem time_codec_round_trip_witness:
  "(0::int) \<le> 90600 \<and> hms_string 90600 = ''25:10:00''
     \<and> time_to_seconds (hms_string 90600) = Inr 90600"
proof -
  have "hms_string 90600 = ''25:10:00''"
    by (simp add: hms_string_def fmt_02d_def nat_digits.simps digit_char_def)
  then show ?thesis using time_codec_round_trip [of 90600] by simp
qed

section \<open>Properties of the headway engine\<close>

lemma map_insort_key: "map f (insort_key f x xs) = insort (f x) (map f xs)"
  by (induction xs) simp_all

lemma map_sort_key: "map f (sort_key f xs) = sort (map f xs)"
  by (induction xs) (simp_all add: map_insort_key)

lemma insort_key_cong_order:
  "\<forall>y \<in> set xs. (f x \<le> f y) = (g x \<le> g y) \<Longrightarrow> insort_key f x xs = insort_key g x xs"
  by (induction xs) simp_all

lemma sort_key_cong_order:
  "\<forall>x \<in> set xs. \<forall>y \<in> set xs. (f x \<le> f y) = (g x \<le> g y)
     \<Longrightarrow> sort_key f xs = sort_key g xs"
proof (induction xs)
  case Nil
  then show ?case by simp
next
  case (Cons a xs)
  then have ih: "sort_key f xs = sort_key g xs" by simp
  have "insort_key f a (sort_key g xs) = insort_key g a (sort_key g xs)"
    using Cons.prems by (intro insort_key_cong_order) simp
  then show ?case by (simp add: ih)
qed

lemma sort_columns_group:
  fixes x y :: "('r::linorder, 's::linorder, 't) row \<times> int"
  assumes "group_key x = k" and "group_key y = k"
  shows "(sort_columns x \<le> sort_columns y) = (snd x \<le> snd y)"
  using assms by (auto simp: group_key_def sort_columns_def less_eq_prod_def less_prod_def)

lemma group_sorted_secs:
  "map snd (group_events r s (sort_key sort_columns df)) = sort (map snd (group_events r s df))"
proof -
  let ?g = "group_events r s df"
  have "group_events r s (sort_key sort_columns df) = sort_key sort_columns ?g"
    by (simp add: group_events_def filter_sort)
  also have "\<dots> = sort_key snd ?g"
    by (rule sort_key_cong_order) (auto simp: group_events_def sort_columns_group)
  finally show ?thesis by (simp add: map_sort_key)
qed

lemma groupby_diff_length: "length (groupby_diff prev xs) = length xs"
  by (induction xs arbitrary: prev) simp_all

lemma groupby_diff_group:
  "map snd (filter (\<lambda>p. group_key (fst p) = k) (zip xs (groupby_diff prev xs)))
     = diffs_from (prev k) (map snd (filter (\<lambda>x. group_key x = k) xs))"
  by (induction xs arbitrary: prev) auto

lemma dropna_filter_fst:
  "filter (\<lambda>ob. P (fst ob)) (dropna zs) = dropna (filter (\<lambda>p. P (fst p)) zs)"
  by (induction zs rule: dropna.induct) auto

lemma zip_map_snd_filter:
  "filter (\<lambda>p. P (fst p)) (zip xs (map g ys)) = map (\<lambda>(x, y). (x, g y)) (filter (\<lambda>p. P (fst p)) (zip xs ys))"
  by (induction xs ys rule: list_induct2') auto

lemma map_snd_dropna_scaled:
  "map snd (dropna (map (\<lambda>(x, y). (x, map_option g y)) zs))
     = map g (map snd (dropna zs))"
  by (induction zs rule: dropna.induct) auto

lemma map_snd_dropna: "map snd (dropna zs) = somes (map snd zs)"
  by (induction zs rule: dropna.induct) auto

lemma somes_diffs_from_Some: "somes (diffs_from (Some p) ys) = adjacent_gaps (p # ys)"
  by (induction ys arbitrary: p) (simp_all add: adjacent_gaps_def)

lemma somes_diffs_from_None: "somes (diffs_from None ys) = adjacent_gaps ys"
  by (cases ys) (simp_all add: somes_diffs_from_Some, simp add: adjacent_gaps_def)

lemma length_adjacent_gaps: "length (adjacent_gaps xs) = length xs - 1"
  by (simp add: adjacent_gaps_def)

lemma headway_frame_group:
  "map snd (filter (\<lambda>ob. group_key (fst ob) = (r, s)) (headway_frame df))
     = map (\<lambda>d. real_of_int d / 60) (adjacent_gaps (sort (map snd (group_events r s df))))"
proof -
  define sdf where "sdf = sort_key sort_columns df"
  define ds where "ds = groupby_diff Map.empty sdf"
  let ?P = "\<lambda>x. group_key x = (r, s)"
  have "map snd (filter (\<lambda>ob. ?P (fst ob)) (headway_frame df))
      = map snd (dropna (filter (\<lambda>p. ?P (fst p)) (zip sdf (map (map_option (\<lambda>d. real_of_int d / 60)) ds))))"
    by (simp add: headway_frame_def Let_def sdf_def ds_def dropna_filter_fst [of ?P])
  also have "\<dots> = map (\<lambda>d. real_of_int d / 60) (map snd (dropna (filter (\<lambda>p. ?P (fst p)) (zip sdf ds))))"
    by (simp only: zip_map_snd_filter [of ?P] map_snd_dropna_scaled)
  also have "map snd (dropna (filter (\<lambda>p. ?P (fst p)) (zip sdf ds)))
      = somes (diffs_from None (map snd (filter ?P sdf)))"
    by (simp add: map_snd_dropna ds_def groupby_diff_group [of "(r, s)"])
  also have "map snd (filter ?P sdf) = sort (map snd (group_events r s df))"
    using group_sorted_secs [of r s df] by (simp add: sdf_def group_events_def)
  finally show ?thesis by (simp add: somes_diffs_from_None)
qed

text \<open>
  C4. Headway observation count: for every group (route, stop) of \<open>n\<close> events, the
  observations of the group are the gaps between neighbours of its arrival seconds in
  ascending order, so there are \<open>n - 1\<close> of them, and none for a group of no or one
  event: the first event of a group yields no observation.
\<close>

theorem headway_observation_count:
  fixes df :: "(('r::linorder, 's::linorder, 't) row \<times> int) list"
  shows "map snd (group_observations r s (headway_frame df))
           = map (\<lambda>d. real_of_int d / 60) (adjacent_gaps (sort (map snd (group_events r s df))))
       \<and> length (group_observations r s (headway_frame df)) = length (group_events r s df) - 1"
proof -
  have a: "map snd (group_observations r s (headway_frame df))
           = map (\<lambda>d. real_of_int d / 60) (adjacent_gaps (sort (map snd (group_events r s df))))"
    unfolding group_observations_def by (rule headway_frame_group)
  have "length (group_observations r s (headway_frame df))
          = length (map snd (group_observations r s (headway_frame df)))" by simp
  also have "\<dots> = length (group_events r s df) - 1"
    unfolding a by (simp add: length_adjacent_gaps)
  finally show ?thesis using a by simp
qed

theorem headway_observation_count_witness:
  "length (group_events 7 1 ex_df) = 3
     \<and> map snd (group_observations 7 1 (headway_frame ex_df)) = [10, 15]
     \<and> length (group_events 8 2 ex_df) = 1
     \<and> group_observations 8 2 (headway_frame ex_df) = []
     \<and> group_observations 9 9 (headway_frame ex_df) = []"
  using headway_observation_count [of 7 1 ex_df] headway_observation_count [of 8 2 ex_df]
    headway_observation_count [of 9 9 ex_df]
  by (simp add: ex_df_def group_events_def group_key_def adjacent_gaps_def)






lemma agg_headways_route_ids:
  "map hs_route_id (agg_headways obs)
     = sort (remdups (map (\<lambda>ob. route_id (fst (fst ob))) obs))"
  unfolding agg_headways_def Let_def by (simp add: comp_def)

lemma agg_headways_routes:
  "hs_route_id ` set (agg_headways obs) = (\<lambda>ob. route_id (fst (fst ob))) ` set obs"
proof -
  have "hs_route_id ` set (agg_headways obs) = set (map hs_route_id (agg_headways obs))"
    by simp
  also have "\<dots> = (\<lambda>ob. route_id (fst (fst ob))) ` set obs"
    unfolding agg_headways_route_ids by simp
  finally show ?thesis .
qed

lemma agg_headways_count:
  assumes "st \<in> set (agg_headways obs)"
  shows "n_headways st = length (filter (\<lambda>ob. route_id (fst (fst ob)) = hs_route_id st) obs)
     \<and> 1 \<le> n_headways st"
proof -
  let ?rs = "sort (remdups (map (\<lambda>ob. route_id (fst (fst ob))) obs))"
  from assms obtain r where r: "r \<in> set ?rs"
    and st: "st = \<lparr>hs_route_id = r,
        n_headways = length (map snd (filter (\<lambda>ob. route_id (fst (fst ob)) = r) obs)),
        avg_headway_min = mean (map snd (filter (\<lambda>ob. route_id (fst (fst ob)) = r) obs)),
        median_headway_min = median (map snd (filter (\<lambda>ob. route_id (fst (fst ob)) = r) obs)),
        min_headway_min = agg_min (map snd (filter (\<lambda>ob. route_id (fst (fst ob)) = r) obs)),
        max_headway_min = agg_max (map snd (filter (\<lambda>ob. route_id (fst (fst ob)) = r) obs))\<rparr>"
    unfolding agg_headways_def Let_def set_map by (elim imageE)
  from r obtain ob where "ob \<in> set obs" "route_id (fst (fst ob)) = r" by auto
  then have "filter (\<lambda>ob. route_id (fst (fst ob)) = r) obs \<noteq> []"
    by (auto simp: filter_empty_conv)
  then have "1 \<le> length (filter (\<lambda>ob. route_id (fst (fst ob)) = r) obs)"
    by (simp add: Suc_leI)
  then show ?thesis by (simp add: st)
qed

lemma route_in_frame_iff:
  fixes df :: "(('r::linorder, 's::linorder, 't) row \<times> int) list"
  shows "(r \<in> (\<lambda>ob. route_id (fst (fst ob))) ` set (headway_frame df))
       = (\<exists>s. 2 \<le> length (group_events r s df))"
proof -
  have "(r \<in> (\<lambda>ob. route_id (fst (fst ob))) ` set (headway_frame df))
      = (\<exists>s. group_observations r s (headway_frame df) \<noteq> [])"
    by (auto simp: group_observations_def filter_empty_conv group_key_def)
  also have "\<dots> = (\<exists>s. length (group_observations r s (headway_frame df)) \<noteq> 0)"
    by simp
  also have "\<dots> = (\<exists>s. length (group_events r s df) - 1 \<noteq> 0)"
  proof -
    have "\<And>s. length (group_observations r s (headway_frame df)) = length (group_events r s df) - 1"
    proof -
      fix s
      have "length (group_observations r s (headway_frame df))
          = length (map snd (group_observations r s (headway_frame df)))" by simp
      also have "\<dots> = length (group_events r s df) - 1"
        unfolding group_observations_def headway_frame_group by (simp add: length_adjacent_gaps)
      finally show "length (group_observations r s (headway_frame df)) = length (group_events r s df) - 1" .
    qed
    then show ?thesis by simp
  qed
  also have "\<dots> = (\<exists>s. 2 \<le> length (group_events r s df))"
    by (metis One_nat_def Suc_1 Suc_leI diff_is_0_eq not_less_eq_eq zero_less_diff nat_less_le)
  finally show ?thesis .
qed

text \<open>
  C5. Absence, not zero: when the times of the batch parse, a route has a row in the
  output exactly if one of its (route, stop) groups has two events or more; every row of
  the output counts at least one headway.
\<close>

theorem absent_not_zero:
  fixes db :: "('r::linorder, 's::linorder, 't) database"
  assumes "apply_time_to_seconds (sql_limit max_rows (joined_rows db)) = Inr df"
  shows "\<exists>out. compute_headway_stats db max_rows = Inr out
           \<and> (r \<in> hs_route_id ` set out) = (\<exists>s. 2 \<le> length (group_events r s df))
           \<and> (\<forall>st \<in> set out. 1 \<le> n_headways st)"
proof -
  have "compute_headway_stats db max_rows = Inr (agg_headways (headway_frame df))"
    using assms by (simp add: compute_headway_stats_def)
  moreover have "(r \<in> hs_route_id ` set (agg_headways (headway_frame df)))
      = (\<exists>s. 2 \<le> length (group_events r s df))"
    unfolding agg_headways_routes by (rule route_in_frame_iff)
  moreover have "\<forall>st \<in> set (agg_headways (headway_frame df)). 1 \<le> n_headways st"
    using agg_headways_count by blast
  ultimately show ?thesis by blast
qed

theorem absent_not_zero_witness:
  "apply_time_to_seconds (sql_limit 100 (joined_rows ex_db)) = Inr ex_df
   \<and> (\<exists>out. compute_headway_stats ex_db 100 = Inr out
          \<and> 7 \<in> hs_route_id ` set out \<and> 8 \<notin> hs_route_id ` set out
          \<and> (\<forall>st \<in> set out. 1 \<le> n_headways st))"
proof -
  have a: "apply_time_to_seconds (sql_limit 100 (joined_rows ex_db)) = Inr ex_df"
    by (simp add: sql_limit_def joined_rows_def ex_db_def ex_df_def time_to_seconds_def
        py_int_def strip_def is_space_def digit_val_def)
  have b: "\<exists>s. 2 \<le> length (group_events 7 s ex_df)"
    by (rule exI [of _ 1]) (simp add: group_events_def group_key_def ex_df_def)
  have c: "\<not> (\<exists>s. 2 \<le> length (group_events 8 s ex_df))"
    by (simp add: group_events_def group_key_def ex_df_def)
  from absent_not_zero [OF a, of 7] obtain out where
    o: "compute_headway_stats ex_db 100 = Inr out" "7 \<in> hs_route_id ` set out"
      "\<forall>st \<in> set out. 1 \<le> n_headways st"
    using b by auto
  from absent_not_zero [OF a, of 8] o(1) c have "8 \<notin> hs_route_id ` set out" by auto
  with a o show ?thesis by blast
qed

text \<open>
  C10. Input cap: \<open>compute_headway_stats\<close> reads at most \<open>max_rows\<close> rows of the join
  (100000 by default, 200000 from \<open>main\<close>) and its result depends on these rows only:
  two databases whose joins agree on the first \<open>max_rows\<close> rows give the same result,
  whatever rows follow.
\<close>

theorem input_cap:
  fixes db db' :: "('r::linorder, 's::linorder, 't) database"
  assumes "0 \<le> max_rows"
  shows "length (sql_limit max_rows (joined_rows db)) \<le> nat max_rows
       \<and> (take (nat max_rows) (joined_rows db') = take (nat max_rows) (joined_rows db)
            \<longrightarrow> compute_headway_stats db' max_rows = compute_headway_stats db max_rows)
       \<and> compute_headway_stats_default db = compute_headway_stats db 100000
       \<and> main_headway_stats db = compute_headway_stats db 200000"
  using assms
  by (simp add: sql_limit_def compute_headway_stats_def compute_headway_stats_default_def
      main_headway_stats_def)

theorem input_cap_witness:
  "(0::int) \<le> 2
   \<and> length (sql_limit 2 (joined_rows ex_db_longer)) \<le> nat 2
   \<and> take (nat 2) (joined_rows ex_db) = take (nat 2) (joined_rows ex_db_longer)
   \<and> joined_rows ex_db \<noteq> joined_rows ex_db_longer
   \<and> compute_headway_stats ex_db 2 = compute_headway_stats ex_db_longer 2"
proof -
  have a: "take (nat 2) (joined_rows ex_db) = take (nat 2) (joined_rows ex_db_longer)"
    by (simp add: joined_rows_def ex_db_longer_def ex_db_def)
  have b: "joined_rows ex_db \<noteq> joined_rows ex_db_longer"
    by (simp add: joined_rows_def ex_db_longer_def ex_db_def)
  show ?thesis
    using input_cap [of 2 ex_db_longer ex_db] a b by simp
qed

section \<open>Properties of the delay synthesizer\<close>

lemma draws_length: "length (fst (draws f k g)) = k"
  by (induction k arbitrary: g) (simp_all add: case_prod_beta Let_def)

lemma draws_all:
  "(\<And>g. P (fst (f g))) \<Longrightarrow> x \<in> set (fst (draws f k g)) \<Longrightarrow> P x"
  by (induction k arbitrary: g) (auto simp: case_prod_beta Let_def)

lemma mask_assign_length: "length (mask_assign m vs ds) = length ds"
  by (induction m vs ds rule: mask_assign.induct) (simp_all split: list.splits)

lemma mask_assign_keeps:
  "length m = length ds \<Longrightarrow> i < length ds \<Longrightarrow> \<not> m ! i
     \<Longrightarrow> mask_assign m vs ds ! i = ds ! i"
proof (induction m vs ds arbitrary: i rule: mask_assign.induct)
  case (1 b bs vs d ds)
  then show ?case by (cases i) (auto split: list.splits)
qed simp_all

lemma mask_assign_sets:
  "length m = length ds \<Longrightarrow> i < length ds \<Longrightarrow> m ! i \<Longrightarrow> mask_sum m \<le> length vs
     \<Longrightarrow> mask_assign m vs ds ! i \<in> set vs"
proof (induction m vs ds arbitrary: i rule: mask_assign.induct)
  case (1 b bs vs d ds)
  show ?case
  proof (cases i)
    case 0
    with 1 show ?thesis by (cases vs) (auto simp: mask_sum_def)
  next
    case (Suc j)
    show ?thesis
    proof (cases b)
      case True
      with "1.prems" obtain v vs' where vs: "vs = v # vs'" by (cases vs) (auto simp: mask_sum_def)
      have "mask_assign bs vs' ds ! j \<in> set vs'"
        using "1.IH"(2) [OF True vs, of j] "1.prems" True vs Suc by (simp add: mask_sum_def)
      then show ?thesis using True vs Suc by simp
    next
      case False
      have "mask_assign bs vs ds ! j \<in> set vs"
        using "1.IH"(3) [OF False, of j] "1.prems" False Suc by (simp add: mask_sum_def)
      then show ?thesis using False Suc by simp
    qed
  qed
qed simp_all

lemma mask_select_length:
  "length m = length a \<Longrightarrow> length (mask_select m a) = mask_sum m"
  by (induction m a rule: list_induct2) (simp_all add: mask_select_def mask_sum_def)

lemma round_half_even_of_int: "round_half_even (of_int k) = k"
  by (simp add: round_half_even_def)

lemma round_half_even_bounds:
  assumes "of_int a \<le> x" and "x \<le> of_int b"
  shows "a \<le> round_half_even x \<and> round_half_even x \<le> b"
proof -
  have fa: "a \<le> \<lfloor>x\<rfloor>" using assms(1) by (simp add: le_floor_iff)
  have fb: "\<lfloor>x\<rfloor> \<le> b" using assms(2) by (simp add: floor_le_iff)
  show ?thesis
  proof (cases "x - of_int \<lfloor>x\<rfloor> < 1 / 2")
    case True
    then show ?thesis using fa fb by (simp add: round_half_even_def)
  next
    case False
    then have "of_int \<lfloor>x\<rfloor> < x" by linarith
    then have "of_int \<lfloor>x\<rfloor> < (of_int b :: real)" using assms(2) by linarith
    then have "\<lfloor>x\<rfloor> < b" by simp
    then show ?thesis using fa fb by (auto simp: round_half_even_def Let_def)
  qed
qed

lemma clip_bounds: "lo \<le> hi \<Longrightarrow> lo \<le> clip x lo hi \<and> clip x lo hi \<le> hi"
  by (auto simp: clip_def)

lemma fill_delays_band:
  assumes xs: "mask_sum (map (\<lambda>c. c = on_time) cs) \<le> length xs"
    and ks1: "mask_sum (map (\<lambda>c. c = small_delay) cs) \<le> length ks1"
      "\<forall>k \<in> set ks1. 1 \<le> k \<and> k < 6"
    and ks2: "mask_sum (map (\<lambda>c. c = big_delay) cs) \<le> length ks2"
      "\<forall>k \<in> set ks2. 5 \<le> k \<and> k < 21"
    and ks3: "mask_sum (map (\<lambda>c. c = early) cs) \<le> length ks3"
      "\<forall>k \<in> set ks3. 1 \<le> k \<and> k < 6"
    and i: "i < length cs"
  shows "length (fill_delays cs xs ks1 ks2 ks3) = length cs
       \<and> in_band (cs ! i) (round_half_even (fill_delays cs xs ks1 ks2 ks3 ! i))"
proof -
  define m where "m = map (\<lambda>c. c = on_time) cs"
  define m1 where "m1 = map (\<lambda>c. c = small_delay) cs"
  define m2 where "m2 = map (\<lambda>c. c = big_delay) cs"
  define m3 where "m3 = map (\<lambda>c. c = early) cs"
  define d0 where "d0 = replicate (length cs) (0::real)"
  define d1 where "d1 = mask_assign m xs d0"
  define d2 where "d2 = mask_assign m (map (\<lambda>x. clip x (- 2) 3) (mask_select m d1)) d1"
  define d3 where "d3 = mask_assign m1 (map real_of_int ks1) d2"
  define d4 where "d4 = mask_assign m2 (map real_of_int ks2) d3"
  define d5 where "d5 = mask_assign m3 (map (\<lambda>k. - real_of_int k) ks3) d4"
  have fd: "fill_delays cs xs ks1 ks2 ks3 = d5"
    by (simp add: fill_delays_def Let_def d5_def d4_def d3_def d2_def d1_def d0_def
        m_def m1_def m2_def m3_def)
  have len: "length d0 = length cs" "length d1 = length cs" "length d2 = length cs"
    "length d3 = length cs" "length d4 = length cs" "length d5 = length cs"
    by (simp_all add: d0_def d1_def d2_def d3_def d4_def d5_def mask_assign_length)
  have lm: "length m = length cs" "length m1 = length cs" "length m2 = length cs"
    "length m3 = length cs"
    by (simp_all add: m_def m1_def m2_def m3_def)
  have mi: "m ! i = (cs ! i = on_time)" "m1 ! i = (cs ! i = small_delay)"
    "m2 ! i = (cs ! i = big_delay)" "m3 ! i = (cs ! i = early)"
    using i by (simp_all add: m_def m1_def m2_def m3_def)
  have band: "in_band (cs ! i) (round_half_even (d5 ! i))"
  proof (cases "cs ! i")
    case on_time
    have "mask_sum m \<le> length (map (\<lambda>x. clip x (- 2) 3) (mask_select m d1))"
      by (simp add: mask_select_length lm len)
    then have "d2 ! i \<in> set (map (\<lambda>x. clip x (- 2) 3) (mask_select m d1))"
      unfolding d2_def by (intro mask_assign_sets) (use lm len i mi on_time in simp_all)
    then obtain x where "d2 ! i = clip x (- 2) 3" by auto
    then have b: "- 2 \<le> d2 ! i \<and> d2 ! i \<le> 3"
      using clip_bounds [of "- 2" 3 x] by simp
    have "d3 ! i = d2 ! i"
      unfolding d3_def using mask_assign_keeps [of m1 d2 i] lm len i mi on_time by simp
    moreover have "d4 ! i = d3 ! i"
      unfolding d4_def using mask_assign_keeps [of m2 d3 i] lm len i mi on_time by simp
    moreover have "d5 ! i = d4 ! i"
      unfolding d5_def using mask_assign_keeps [of m3 d4 i] lm len i mi on_time by simp
    ultimately have "- 2 \<le> d5 ! i \<and> d5 ! i \<le> 3" using b by simp
    then show ?thesis
      using round_half_even_bounds [of "- 2" "d5 ! i" 3] on_time by (simp add: in_band_def)
  next
    case small_delay
    have "d3 ! i \<in> set (map real_of_int ks1)"
      unfolding d3_def by (intro mask_assign_sets) (use lm len i mi small_delay ks1(1) [folded m1_def] in simp_all)
    then obtain k where k: "k \<in> set ks1" "d3 ! i = real_of_int k" by auto
    have "d4 ! i = d3 ! i"
      unfolding d4_def using mask_assign_keeps [of m2 d3 i] lm len i mi small_delay by simp
    moreover have "d5 ! i = d4 ! i"
      unfolding d5_def using mask_assign_keeps [of m3 d4 i] lm len i mi small_delay by simp
    ultimately have "round_half_even (d5 ! i) = k"
      using k by (simp add: round_half_even_of_int)
    then show ?thesis using ks1(2) k(1) small_delay by (auto simp: in_band_def)
  next
    case big_delay
    have "d4 ! i \<in> set (map real_of_int ks2)"
      unfolding d4_def by (intro mask_assign_sets) (use lm len i mi big_delay ks2(1) [folded m2_def] in simp_all)
    then obtain k where k: "k \<in> set ks2" "d4 ! i = real_of_int k" by auto
    have "d5 ! i = d4 ! i"
      unfolding d5_def using mask_assign_keeps [of m3 d4 i] lm len i mi big_delay by simp
    then have "round_half_even (d5 ! i) = k"
      using k by (simp add: round_half_even_of_int)
    then show ?thesis using ks2(2) k(1) big_delay by (auto simp: in_band_def)
  next
    case early
    have "d5 ! i \<in> set (map (\<lambda>k. - real_of_int k) ks3)"
      unfolding d5_def by (intro mask_assign_sets) (use lm len i mi early ks3(1) [folded m3_def] in simp_all)
    then obtain k where k: "k \<in> set ks3" "d5 ! i = - real_of_int k" by auto
    have "round_half_even (d5 ! i) = - k"
      using k round_half_even_of_int [of "- k"] by simp
    then show ?thesis using ks3(2) k(1) early by (auto simp: in_band_def)
  qed
  show ?thesis using band len by (simp add: fd)
qed

lemma draw_reasons_length: "length (fst (draw_reasons G cs g)) = length cs"
  by (induction cs arbitrary: g) (simp_all add: case_prod_beta Let_def)

lemma synthesize_columns_eq:
  "synthesize_columns G seed n =
     (let g0 = default_rng G seed;
          cs = fst (draws (rng_choice_p G) n g0);
          g1 = snd (draws (rng_choice_p G) n g0);
          k0 = mask_sum (map (\<lambda>c. c = on_time) cs);
          k1 = mask_sum (map (\<lambda>c. c = small_delay) cs);
          k2 = mask_sum (map (\<lambda>c. c = big_delay) cs);
          k3 = mask_sum (map (\<lambda>c. c = early) cs);
          xs = fst (draws (rng_normal G) k0 g1);
          g2 = snd (draws (rng_normal G) k0 g1);
          ks1 = fst (draws (rng_integers G 1 6) k1 g2);
          g3 = snd (draws (rng_integers G 1 6) k1 g2);
          ks2 = fst (draws (rng_integers G 5 21) k2 g3);
          g4 = snd (draws (rng_integers G 5 21) k2 g3);
          ks3 = fst (draws (rng_integers G 1 6) k3 g4);
          g5 = snd (draws (rng_integers G 1 6) k3 g4)
      in (cs, map round_half_even (fill_delays cs xs ks1 ks2 ks3), fst (draw_reasons G cs g5)))"
  by (simp add: synthesize_columns_def fill_delays_def Let_def case_prod_beta draws_length)

lemma bounded_mod:
  fixes low high :: int
  assumes "low < high"
  shows "low \<le> low + a mod (high - low) \<and> low + a mod (high - low) < high"
proof -
  have "0 \<le> a mod (high - low)" and "a mod (high - low) < high - low"
    using assms by simp_all
  then show ?thesis by linarith
qed

lemma list_generator_contract: "numpy_contract list_generator"
  by (simp add: numpy_contract_def list_generator_def case_prod_beta bounded_mod)

text \<open>
  C2. Delay magnitude bounds: with a generator that keeps numpy's bounds, the delay of
  every event lies in the band of the category drawn for it: \<open>[-2, 3]\<close> for \<open>on_time\<close>,
  \<open>[1, 5]\<close> for \<open>small_delay\<close>, \<open>[5, 20]\<close> for \<open>big_delay\<close>, \<open>[-5, -1]\<close> for \<open>early\<close>.
\<close>

theorem delay_magnitude_bounds:
  assumes "numpy_contract G"
    and "synthesize_columns G seed n = (categories, delay_col, reason_col)"
    and "i < n"
  shows "length categories = n \<and> length delay_col = n
       \<and> in_band (categories ! i) (delay_col ! i)"
proof -
  define g0 where "g0 = default_rng G seed"
  define cs where "cs = fst (draws (rng_choice_p G) n g0)"
  define g1 where "g1 = snd (draws (rng_choice_p G) n g0)"
  define k0 where "k0 = mask_sum (map (\<lambda>c. c = on_time) cs)"
  define k1 where "k1 = mask_sum (map (\<lambda>c. c = small_delay) cs)"
  define k2 where "k2 = mask_sum (map (\<lambda>c. c = big_delay) cs)"
  define k3 where "k3 = mask_sum (map (\<lambda>c. c = early) cs)"
  define xs where "xs = fst (draws (rng_normal G) k0 g1)"
  define g2 where "g2 = snd (draws (rng_normal G) k0 g1)"
  define ks1 where "ks1 = fst (draws (rng_integers G 1 6) k1 g2)"
  define g3 where "g3 = snd (draws (rng_integers G 1 6) k1 g2)"
  define ks2 where "ks2 = fst (draws (rng_integers G 5 21) k2 g3)"
  define g4 where "g4 = snd (draws (rng_integers G 5 21) k2 g3)"
  define ks3 where "ks3 = fst (draws (rng_integers G 1 6) k3 g4)"
  have eq: "synthesize_columns G seed n
      = (cs, map round_half_even (fill_delays cs xs ks1 ks2 ks3),
         fst (draw_reasons G cs (snd (draws (rng_integers G 1 6) k3 g4))))"
    unfolding synthesize_columns_eq Let_def g0_def cs_def g1_def k0_def k1_def k2_def k3_def
      xs_def g2_def ks1_def g3_def ks2_def g4_def ks3_def ..
  have cats: "categories = cs" and dc: "delay_col = map round_half_even (fill_delays cs xs ks1 ks2 ks3)"
    using assms(2) unfolding eq by auto
  have lcs: "length cs = n" by (simp add: cs_def draws_length)
  have c16: "\<And>g. 1 \<le> fst (rng_integers G 1 6 g) \<and> fst (rng_integers G 1 6 g) < 6"
    using assms(1) by (simp add: numpy_contract_def)
  have c521: "\<And>g. 5 \<le> fst (rng_integers G 5 21 g) \<and> fst (rng_integers G 5 21 g) < 21"
    using assms(1) by (simp add: numpy_contract_def)
  have b1: "\<forall>k \<in> set ks1. 1 \<le> k \<and> k < 6"
    unfolding ks1_def using draws_all [of "\<lambda>k. 1 \<le> k \<and> k < 6" "rng_integers G 1 6"] c16 by blast
  have b2: "\<forall>k \<in> set ks2. 5 \<le> k \<and> k < 21"
    unfolding ks2_def using draws_all [of "\<lambda>k. 5 \<le> k \<and> k < 21" "rng_integers G 5 21"] c521 by blast
  have b3: "\<forall>k \<in> set ks3. 1 \<le> k \<and> k < 6"
    unfolding ks3_def using draws_all [of "\<lambda>k. 1 \<le> k \<and> k < 6" "rng_integers G 1 6"] c16 by blast
  have i: "i < length cs" using assms(3) lcs by simp
  have "length (fill_delays cs xs ks1 ks2 ks3) = length cs
       \<and> in_band (cs ! i) (round_half_even (fill_delays cs xs ks1 ks2 ks3 ! i))"
    by (rule fill_delays_band [OF _ _ b1 _ b2 _ b3 i])
       (simp_all add: xs_def ks1_def ks2_def ks3_def draws_length k0_def k1_def k2_def k3_def)
  then show ?thesis using cats dc lcs i by simp
qed

lemma ex_columns:
  "synthesize_columns list_generator 2 4
     = ([big_delay, early, small_delay, on_time], [6, - 1, 3, - 2],
        [''congestion'', ''early_departure'', ''vehicle_late'', ''on_time''])"
  by code_simp

theorem delay_magnitude_bounds_witness:
  "numpy_contract list_generator
   \<and> synthesize_columns list_generator 2 4
       = ([big_delay, early, small_delay, on_time], [6, - 1, 3, - 2],
          [''congestion'', ''early_departure'', ''vehicle_late'', ''on_time''])
   \<and> in_band big_delay 6 \<and> in_band early (- 1) \<and> in_band small_delay 3
   \<and> in_band on_time (- 2)"
  using delay_magnitude_bounds [OF list_generator_contract ex_columns, of 0]
    delay_magnitude_bounds [OF list_generator_contract ex_columns, of 1]
    delay_magnitude_bounds [OF list_generator_contract ex_columns, of 2]
    delay_magnitude_bounds [OF list_generator_contract ex_columns, of 3]
    list_generator_contract ex_columns
  by simp

lemma draw_where_mask_assign:
  "length m = length ds \<Longrightarrow>
     draw_where f m ds g
       = (mask_assign m (fst (draws f (mask_sum m) g)) ds, snd (draws f (mask_sum m) g))"
proof (induction m ds arbitrary: g rule: list_induct2)
  case Nil
  then show ?case by (simp add: mask_sum_def)
next
  case (Cons b bs d ds)
  then show ?case by (simp add: mask_sum_def case_prod_beta Let_def)
qed

lemma draws_mapped:
  "draws (draw_mapped h f) k g = (map h (fst (draws f k g)), snd (draws f k g))"
  by (induction k arbitrary: g) (simp_all add: draw_mapped_def case_prod_beta Let_def)

lemma mask_select_assign:
  "length m = length ds \<Longrightarrow> length vs = mask_sum m
     \<Longrightarrow> mask_select m (mask_assign m vs ds) = vs"
proof (induction m ds arbitrary: vs rule: list_induct2)
  case Nil
  then show ?case by (simp add: mask_select_def mask_sum_def)
next
  case (Cons b bs d ds)
  then show ?case
    by (cases vs) (auto simp: mask_select_def mask_sum_def)
qed

lemma mask_assign_twice:
  "length m = length ds \<Longrightarrow> length vs = mask_sum m \<Longrightarrow> length ws = mask_sum m
     \<Longrightarrow> mask_assign m ws (mask_assign m vs ds) = mask_assign m ws ds"
proof (induction m ds arbitrary: vs ws rule: list_induct2)
  case Nil
  then show ?case by simp
next
  case (Cons b bs d ds)
  then show ?case
    by (cases vs; cases ws) (auto simp: mask_sum_def split: if_splits)
qed

lemma draw_where_length:
  "length m = length ds \<Longrightarrow> length (fst (draw_where f m ds g)) = length ds"
  by (simp add: draw_where_mask_assign mask_assign_length)

lemma clip_step:
  "length m = length ds \<Longrightarrow> length xs = mask_sum m \<Longrightarrow>
     mask_assign m (map h (mask_select m (mask_assign m xs ds))) (mask_assign m xs ds)
       = mask_assign m (map h xs) ds"
  by (simp add: mask_select_assign mask_assign_twice)

text \<open>
  C8. Draw order. The draws of the source come in phases: the category draws of all
  events in input order; then the magnitude draws of the \<open>on_time\<close> events, of the
  \<open>small_delay\<close>, of the \<open>big_delay\<close> and of the \<open>early\<close> events, each in input order; then one
  reason draw per event in input order. The columns of the source are those of the
  reference synthesizer that consumes the generator in this order.
\<close>

theorem draw_order_phases:
  "synthesize_columns G seed n = phased_columns G seed n"
  by (simp add: synthesize_columns_def phased_columns_def Let_def case_prod_beta
      draw_where_mask_assign draws_mapped mask_assign_length draws_length clip_step)

text \<open>
  The reference synthesizer that draws category, magnitude and reason of one event
  together gives other columns than the source, on two events with the list generator
  seeded by 42.
\<close>

theorem draw_order_interleaved_counterexample:
  "synthesize_columns list_generator 42 2
     = ([big_delay, early], [6, - 5], [''signal_failure'', ''early_departure''])
   \<and> interleaved_columns list_generator 42 2
     = ([big_delay, on_time], [8, - 2], [''infrastructure_issue'', ''on_time''])
   \<and> synthesize_columns list_generator 42 2 \<noteq> interleaved_columns list_generator 42 2"
  by code_simp

lemma add_delay_to_time_Inr:
  "add_delay_to_time t d = Inr a \<Longrightarrow>
     \<exists>sec. time_to_seconds t = Inr sec \<and> a = hms_string (max 0 (sec + d * 60))"
  by (auto simp: add_delay_to_time_def Let_def max_def split: sum.splits)

lemma actual_arrivals_Inr:
  "actual_arrivals tds = Inr as \<Longrightarrow>
     list_all2 (\<lambda>td a. add_delay_to_time (fst td) (snd td) = Inr a) tds as"
proof (induction tds arbitrary: as)
  case Nil
  then show ?case by simp
next
  case (Cons td tds)
  obtain t d where td: "td = (t, d)" by (cases td)
  from Cons.prems obtain a as' where a: "add_delay_to_time t d = Inr a"
    and r: "actual_arrivals tds = Inr as'" and as: "as = a # as'"
    by (auto simp: td split: sum.splits)
  show ?case using Cons.IH [OF r] a as td by simp
qed

lemma fill_delays_length: "length (fill_delays cs xs ks1 ks2 ks3) = length cs"
  by (simp add: fill_delays_def Let_def mask_assign_length)

lemma synthesize_columns_lengths:
  assumes "synthesize_columns G seed n = (cs, dc, rc)"
  shows "length cs = n \<and> length dc = n \<and> length rc = n"
  using assms unfolding synthesize_columns_eq Let_def
  by (auto simp: draws_length fill_delays_length draw_reasons_length)

lemma map_second_of_four:
  "length a = length b \<Longrightarrow> length b = length c \<Longrightarrow> length c = length d \<Longrightarrow>
     map (\<lambda>x. fst (snd x)) (zip a (zip b (zip c d))) = b"
proof -
  assume l: "length a = length b" "length b = length c" "length c = length d"
  have "map (\<lambda>x. fst (snd x)) (zip a (zip b (zip c d)))
      = map fst (map snd (zip a (zip b (zip c d))))" by simp
  also have "\<dots> = map fst (zip b (zip c d))" using l by simp
  also have "\<dots> = b" using l by simp
  finally show ?thesis .
qed

text \<open>
  C3. Actual arrival: every synthesized event has as \<open>actual_arrival\<close> the rendering of
  \<open>max(0, time_to_seconds(planned_arrival) + delay_min * 60)\<close>; planned \<open>00:02:00\<close> with a
  delay of \<open>-10\<close> gives \<open>00:00:00\<close>. The field \<open>delay_min\<close> of the events is the column
  of signed delays as drawn: the floor at zero touches the clock time only.
\<close>

theorem actual_arrival_derivation:
  assumes frame: "synthesize_frame G seed df = Inr frame"
    and cols: "synthesize_columns G seed (length df) = (categories, delay_col, reason_col)"
  shows "map delay_min frame = delay_col
       \<and> (\<forall>e \<in> set frame. \<exists>sec. time_to_seconds (planned_arrival e) = Inr sec
             \<and> actual_arrival e = hms_string (max 0 (sec + delay_min e * 60)))
       \<and> synthesize G seed df = Inr (sort_key output_order frame)
       \<and> add_delay_to_time ''00:02:00'' (- 10) = Inr ''00:00:00''"
proof -
  from frame cols obtain actual where
    aa: "actual_arrivals (zip (map arrival_time df) delay_col) = Inr actual"
    and fr: "frame = map make_event (zip df (zip delay_col (zip reason_col actual)))"
    by (auto simp: synthesize_frame_def split: sum.splits)
  from synthesize_columns_lengths [OF cols]
  have ldc: "length delay_col = length df" and lrc: "length reason_col = length df" by simp_all
  have all2: "list_all2 (\<lambda>td a. add_delay_to_time (fst td) (snd td) = Inr a)
      (zip (map arrival_time df) delay_col) actual"
    using actual_arrivals_Inr [OF aa] .
  then have la: "length actual = length df"
    using ldc by (auto dest: list_all2_lengthD)
  have dm: "map delay_min frame = delay_col"
  proof -
    have "map delay_min frame
        = map (\<lambda>x. fst (snd x)) (zip df (zip delay_col (zip reason_col actual)))"
      unfolding fr by (simp add: make_event_def comp_def case_prod_beta)
    then show ?thesis using map_second_of_four [of df delay_col reason_col actual] ldc lrc la
      by simp
  qed
  have ev: "\<forall>e \<in> set frame. \<exists>sec. time_to_seconds (planned_arrival e) = Inr sec
             \<and> actual_arrival e = hms_string (max 0 (sec + delay_min e * 60))"
  proof
    fix e assume "e \<in> set frame"
    then obtain i where i: "i < length df" and e: "e = frame ! i"
      using fr ldc lrc la by (auto simp: in_set_conv_nth)
    have ei: "e = make_event (df ! i, delay_col ! i, reason_col ! i, actual ! i)"
      using e i ldc lrc la by (simp add: fr)
    have "add_delay_to_time (arrival_time (df ! i)) (delay_col ! i) = Inr (actual ! i)"
      using list_all2_nthD [OF all2, of i] i ldc by simp
    from add_delay_to_time_Inr [OF this] show "\<exists>sec. time_to_seconds (planned_arrival e) = Inr sec
             \<and> actual_arrival e = hms_string (max 0 (sec + delay_min e * 60))"
      by (simp add: ei make_event_def)
  qed
  have ex: "add_delay_to_time ''00:02:00'' (- 10) = Inr ''00:00:00''"
    by code_simp
  show ?thesis using dm ev ex frame by (simp add: synthesize_def)
qed

theorem actual_arrival_derivation_witness:
  "synthesize_frame list_generator 3 ex_sample = Inr ex_frame
   \<and> synthesize_columns list_generator 3 (length ex_sample)
       = ([early, early], [- 2, - 5], [''early_departure'', ''early_departure''])
   \<and> map delay_min ex_frame = [- 2, - 5]
   \<and> map actual_arrival ex_frame = [''25:08:00'', ''00:00:00'']
   \<and> synthesize list_generator 3 ex_sample = Inr (sort_key output_order ex_frame)"
proof -
  have a: "synthesize_frame list_generator 3 ex_sample = Inr ex_frame"
    by code_simp
  have b: "synthesize_columns list_generator 3 (length ex_sample)
       = ([early, early], [- 2, - 5], [''early_departure'', ''early_departure''])"
    by code_simp
  have c: "map actual_arrival ex_frame = [''25:08:00'', ''00:00:00'']"
    by (simp add: ex_frame_def)
  show ?thesis using actual_arrival_derivation [OF a b] a b c by simp
qed



text \<open>
  The condition on the samples is needed: the order that SQLite gives the sample decides
  which rows are read and which draws they get.
\<close>

lemma sample_order_matters:
  "generate_delays list_generator (\<lambda>i. int i) (Some ex_db) 3 42
     \<noteq> generate_delays list_generator (\<lambda>i. - int i) (Some ex_db) 3 42"
  by code_simp

text \<open>
  C9. Empty input: \<open>generate_delays\<close> raises \<open>RuntimeError\<close> when its sample has no rows;
  \<open>compute_headway_stats\<close> returns the empty table when it reads no rows.
\<close>

theorem empty_input:
  fixes db db' :: "('r::linorder, 's::linorder, 't::linorder) database"
  shows "(sample_rows sqlite_random db n_samples = []
            \<longrightarrow> generate_delays G sqlite_random (Some db) n_samples seed = Inl RuntimeError)
       \<and> (sql_limit max_rows (joined_rows db') = []
            \<longrightarrow> compute_headway_stats db' max_rows = Inr [])"
  by (simp add: generate_delays_def compute_headway_stats_def headway_frame_def
      agg_headways_def Let_def)

theorem empty_input_witness:
  "sample_rows (\<lambda>i. 0) empty_db 20000 = []
   \<and> generate_delays list_generator (\<lambda>i. 0) (Some empty_db) 20000 42 = Inl RuntimeError
   \<and> sql_limit 100000 (joined_rows empty_db) = []
   \<and> compute_headway_stats empty_db 100000 = Inr []"
proof -
  have a: "sample_rows (\<lambda>i. 0) empty_db 20000 = []"
    by (simp add: sample_rows_def empty_db_def joined_rows_def order_by_random_def sql_limit_def)
  have b: "sql_limit 100000 (joined_rows empty_db) = []"
    by (simp add: empty_db_def joined_rows_def sql_limit_def)
  show ?thesis
    using empty_input [of "\<lambda>i. 0" empty_db 20000 list_generator 42 100000 empty_db] a b
    by simp
qed

end
